theory Spec2Isabelle
  imports Complex_Main "HOL-Library.Sublist"
begin

section \<open>Python string primitives used by the services\<close>

text \<open>
  A Python \<open>str\<close> is modelled as a \<open>string\<close>; one \<open>char\<close> stands for one character
  of the Python string, so \<open>length\<close> is Python's \<open>len\<close>. A Python \<open>float\<close> that is only
  stored and handed on (a coordinate, a distance, a score) is the \<open>real\<close> it denotes;
  arithmetic on floats is not modelled.
\<close>

definition isspace :: "char \<Rightarrow> bool" where
  "isspace c = ((of_char c :: nat) \<in> set [9, 10, 11, 12, 13, 28, 29, 30, 31, 32, 133, 160])"

definition py_strip :: "string \<Rightarrow> string" where
  "py_strip s = rev (dropWhile isspace (rev (dropWhile isspace s)))"

fun join_space :: "string list \<Rightarrow> string" where
  "join_space [] = []"
| "join_space [x] = x"
| "join_space (x # y # ys) = x @ '' '' @ join_space (y # ys)"

definition digit_char :: "nat \<Rightarrow> char" where
  "digit_char n = ''0123456789'' ! n"

function str_nat :: "nat \<Rightarrow> string" where
  "str_nat n = (if n < 10 then [digit_char n] else str_nat (n div 10) @ [digit_char (n mod 10)])"
  by pat_completeness auto
termination
  by (relation "measure id") auto

declare str_nat.simps [simp del]

definition str_int :: "int \<Rightarrow> string" where
  "str_int i = (if i < 0 then ''-'' @ str_nat (nat (- i)) else str_nat (nat i))"

text \<open>
  \<open>s.replace(old, new)\<close> for a non-empty \<open>old\<close>: every non-overlapping occurrence,
  scanning from the left. The services only call it with \<open>old = "CME-"\<close>.
\<close>

function py_replace :: "string \<Rightarrow> string \<Rightarrow> string \<Rightarrow> string" where
  "py_replace old new [] = []"
| "py_replace old new (c # cs) =
     (if old \<noteq> [] \<and> prefix old (c # cs)
      then new @ py_replace old new (drop (length old) (c # cs))
      else c # py_replace old new cs)"
  by pat_completeness auto
termination
  by (relation "measure (\<lambda>(old, new, s). length s)") (auto simp: neq_Nil_conv)

section \<open>Data model (app/models/schemas.py)\<close>

type_synonym bbox = "real \<times> real \<times> real \<times> real"

record TextPosition =
  x0 :: real
  y0 :: real
  x1 :: real
  y1 :: real

record DocumentChunk =
  chunk_id :: string
  document_id :: string
  document_title :: string
  page_number :: int
  chunk_index :: int
  chunk_text :: string
  positions :: "TextPosition list"

record Citation =
  cit_id :: string
  cit_document_id :: string
  cit_document_title :: string
  cit_page_number :: int
  excerpt :: string
  cit_positions :: "TextPosition list"
  relevance_score :: real
  pdf_url :: string

datatype error =
    FileNotFoundError string
  | ValueError string
  | FileDataError
  | KeyError string
  | ValidationError
  | TypeError

section \<open>The PDF collaborator (PyMuPDF) as data\<close>

text \<open>
  A page is what \<open>page.get_text("dict")\<close>, \<open>page.rect\<close> and \<open>page.search_for\<close> give:
  blocks of lines of spans, the page rectangle, and the literal search. The search
  returns a list of rectangles, or Python's \<open>None\<close> (PyMuPDF does so for an empty
  search text). A file of the PDF directory either opens as a list of pages or makes
  \<open>fitz.open\<close> raise.
\<close>

record raw_span =
  span_text :: string
  span_bbox :: bbox

record block =
  block_type :: int
  block_lines :: "raw_span list list"

record page =
  blocks :: "block list"
  rect_width :: real
  rect_height :: real
  search_for :: "string \<Rightarrow> bbox list option"

datatype pdf_file = Unreadable | Pdf "page list"

text \<open>
  The PDF directory maps a file name to its file. The title of a chunk is
  \<open>_format_title(pdf_path.stem)\<close>; it is carried through unchanged, so the store gives
  it per file name.
\<close>

record pdf_store =
  files :: "string \<rightharpoonup> pdf_file"
  title_of :: "string \<Rightarrow> string"

section \<open>PDFService (app/services/pdf_service.py)\<close>

definition get_pdf_path :: "string \<Rightarrow> string" where
  "get_pdf_path did = py_replace ''CME-'' [] did @ ''.pdf''"

definition to_position :: "bbox \<Rightarrow> TextPosition" where
  "to_position p = (case p of (a, b, c, d) \<Rightarrow> \<lparr>x0 = a, y0 = b, x1 = c, y1 = d\<rparr>)"

text \<open>The chunk a \<open>yield\<close> constructs from the loop variables; \<open>page_num\<close> is 0-indexed.\<close>

definition make_chunk ::
  "string \<Rightarrow> string \<Rightarrow> nat \<Rightarrow> nat \<times> string list \<times> bbox list \<Rightarrow> DocumentChunk" where
  "make_chunk did title page_num y = (case y of (idx, texts, poss) \<Rightarrow>
     \<lparr>chunk_id = did @ ''-p'' @ str_int (int page_num + 1) @ ''-c'' @ str_int (int idx),
      document_id = did,
      document_title = title,
      page_number = int page_num + 1,
      chunk_index = int idx,
      chunk_text = join_space texts,
      positions = map to_position poss\<rparr>)"

definition collect_page_spans :: "page \<Rightarrow> raw_span list" where
  "collect_page_spans p =
     concat (map (\<lambda>b. if block_type b = 0
                       then concat (map (filter (\<lambda>s. py_strip (span_text s) \<noteq> [])) (block_lines b))
                       else [])
                 (blocks p))"

text \<open>
  The loop variables of the chunk loop, with the arguments of every \<open>yield\<close> so far
  (chunk index, span texts, span boxes) in emission order.
\<close>

record builder =
  current_chunk_text :: "string list"
  current_chunk_positions :: "bbox list"
  current_length :: nat
  next_chunk_index :: nat
  yielded :: "(nat \<times> string list \<times> bbox list) list"

text \<open>\<open>xs[-3:] if len(xs) > 3 else xs\<close>\<close>

definition overlap_of :: "'a list \<Rightarrow> 'a list" where
  "overlap_of xs = (if length xs > 3 then drop (length xs - 3) xs else xs)"

definition emit :: "builder \<Rightarrow> builder" where
  "emit st = st\<lparr>yielded := yielded st @
                   [(next_chunk_index st, current_chunk_text st, current_chunk_positions st)],
                 next_chunk_index := next_chunk_index st + 1\<rparr>"

definition span_step :: "int \<Rightarrow> builder \<Rightarrow> raw_span \<Rightarrow> builder" where
  "span_step chunk_size st sp =
     (let st1 =
        (if int (current_length st) + int (length (span_text sp)) > chunk_size
            \<and> current_chunk_text st \<noteq> []
         then (let st' = emit st;
                   overlap_text = overlap_of (current_chunk_text st');
                   overlap_positions = overlap_of (current_chunk_positions st')
               in st'\<lparr>current_chunk_text := overlap_text,
                      current_chunk_positions := overlap_positions,
                      current_length := sum_list (map length overlap_text)\<rparr>)
         else st)
      in st1\<lparr>current_chunk_text := current_chunk_text st1 @ [span_text sp],
             current_chunk_positions := current_chunk_positions st1 @ [span_bbox sp],
             current_length := current_length st1 + length (span_text sp)\<rparr>)"

definition page_start :: "nat \<Rightarrow> builder" where
  "page_start idx = \<lparr>current_chunk_text = [], current_chunk_positions = [],
                     current_length = 0, next_chunk_index = idx, yielded = []\<rparr>"

text \<open>One page: the span loop, then the remaining chunk if there is one.\<close>

definition span_loop :: "int \<Rightarrow> nat \<Rightarrow> raw_span list \<Rightarrow> builder" where
  "span_loop chunk_size idx spans = foldl (span_step chunk_size) (page_start idx) spans"

definition build_page :: "int \<Rightarrow> nat \<Rightarrow> raw_span list \<Rightarrow> builder" where
  "build_page chunk_size idx spans =
     (let st = span_loop chunk_size idx spans
      in if current_chunk_text st \<noteq> [] then emit st else st)"

fun pages_loop ::
  "string \<Rightarrow> string \<Rightarrow> int \<Rightarrow> nat \<Rightarrow> nat \<Rightarrow> page list \<Rightarrow> DocumentChunk list" where
  "pages_loop did title chunk_size page_num idx [] = []"
| "pages_loop did title chunk_size page_num idx (p # ps) =
     (let st = build_page chunk_size idx (collect_page_spans p)
      in map (make_chunk did title page_num) (yielded st)
         @ pages_loop did title chunk_size (Suc page_num) (next_chunk_index st) ps)"

definition extract_document_chunks ::
  "pdf_store \<Rightarrow> string \<Rightarrow> int \<Rightarrow> int \<Rightarrow> error + DocumentChunk list" where
  "extract_document_chunks store did chunk_size chunk_overlap =
     (let pdf_path = get_pdf_path did
      in case files store pdf_path of
           None \<Rightarrow> Inl (FileNotFoundError (''Document not found: '' @ did))
         | Some Unreadable \<Rightarrow> Inl FileDataError
         | Some (Pdf pages) \<Rightarrow>
             Inr (pages_loop did (title_of store pdf_path) chunk_size 0 0 pages))"

text \<open>
  \<open>find_text_positions\<close> answers a missing document or a page out of range with the
  empty list; \<open>get_page_dimensions\<close> raises there. The loop
  \<open>for rect in text_instances\<close> raises \<open>TypeError\<close> when the search returned \<open>None\<close>.
\<close>

definition find_text_positions ::
  "pdf_store \<Rightarrow> string \<Rightarrow> int \<Rightarrow> string \<Rightarrow> error + TextPosition list" where
  "find_text_positions store did page_no search_text =
     (case files store (get_pdf_path did) of
        None \<Rightarrow> Inr []
      | Some Unreadable \<Rightarrow> Inl FileDataError
      | Some (Pdf pages) \<Rightarrow>
          if page_no < 1 \<or> page_no > int (length pages) then Inr []
          else (case search_for (pages ! nat (page_no - 1)) search_text of
                  None \<Rightarrow> Inl TypeError
                | Some text_instances \<Rightarrow> Inr (map to_position text_instances)))"

record page_dimensions =
  width :: real
  height :: real
  dim_page_number :: int
  total_pages :: int

definition get_page_dimensions :: "pdf_store \<Rightarrow> string \<Rightarrow> int \<Rightarrow> error + page_dimensions" where
  "get_page_dimensions store did page_no =
     (case files store (get_pdf_path did) of
        None \<Rightarrow> Inl (FileNotFoundError (''Document not found: '' @ did))
      | Some Unreadable \<Rightarrow> Inl FileDataError
      | Some (Pdf pages) \<Rightarrow>
          if page_no < 1 \<or> page_no > int (length pages)
          then Inl (ValueError (''Page '' @ str_int page_no @ '' out of range''))
          else (let pg = pages ! nat (page_no - 1)
                in Inr \<lparr>width = rect_width pg, height = rect_height pg,
                        dim_page_number = page_no, total_pages = int (length pages)\<rparr>))"

section \<open>VectorService.search (app/services/vector_service.py)\<close>

text \<open>
  A row of \<open>collection.query\<close>: id, metadata, document text and distance. The metadata
  dictionary has the keys \<open>add_chunk\<close> writes, each present or absent.
\<close>

record metadata =
  md_document_id :: "string option"
  md_document_title :: "string option"
  md_page_number :: "int option"
  md_chunk_index :: "int option"
  md_positions :: "string option"

record result_row =
  row_id :: string
  row_metadata :: metadata
  row_document :: string
  row_distance :: real

text \<open>What \<open>json.loads\<close> returns: a Python value built from JSON.\<close>

datatype json = JNull | JBool bool | JNum real | JStr string
  | JList "json list" | JDict "(string \<times> json) list"

text \<open>
  What the loop over the rows takes from outside: \<open>json.loads\<close> (\<open>None\<close> when it
  raises \<open>JSONDecodeError\<close>), the validation of one \<open>float\<close> field of \<open>TextPosition\<close>
  (\<open>None\<close> when the value is rejected), and the score
  \<open>round(max(0, 1 - distance / 2), 3)\<close>, which Python computes in double-precision
  arithmetic: \<open>score_of_distance\<close> stands for that computation and is not defined here.
\<close>

record decoders =
  json_loads :: "string \<Rightarrow> json option"
  validate_float :: "json \<Rightarrow> real option"
  score_of_distance :: "real \<Rightarrow> real"

datatype position_error = PosTypeError | PosValidationError

text \<open>
  \<open>TextPosition(**p)\<close> for a dictionary \<open>p\<close> (its keys are distinct): the four fields
  are required, other keys are ignored.
\<close>

definition text_position_of :: "decoders \<Rightarrow> (string \<times> json) list \<Rightarrow> TextPosition option" where
  "text_position_of dec kv =
     (let field = (\<lambda>k. case map_of kv k of None \<Rightarrow> None | Some v \<Rightarrow> validate_float dec v)
      in case (field ''x0'', field ''y0'', field ''x1'', field ''y1'') of
           (Some a, Some b, Some c, Some d) \<Rightarrow> Some \<lparr>x0 = a, y0 = b, x1 = c, y1 = d\<rparr>
         | _ \<Rightarrow> None)"

text \<open>
  \<open>[TextPosition(**p) for p in pos_data]\<close> over a list: an element that is not a
  dictionary raises \<open>TypeError\<close>, a dictionary that fails validation raises the
  validation error; the first failing element decides.
\<close>

fun build_positions :: "decoders \<Rightarrow> json list \<Rightarrow> position_error + TextPosition list" where
  "build_positions dec [] = Inr []"
| "build_positions dec (p # ps) =
     (case p of
        JDict kv \<Rightarrow>
          (case text_position_of dec kv of
             None \<Rightarrow> Inl PosValidationError
           | Some tp \<Rightarrow>
               (case build_positions dec ps of
                  Inl e \<Rightarrow> Inl e
                | Inr tps \<Rightarrow> Inr (tp # tps)))
      | _ \<Rightarrow> Inl PosTypeError)"

text \<open>
  The comprehension over any value: a dictionary iterates its keys and a string its
  characters (neither is a mapping, so a non-empty one raises \<open>TypeError\<close>); the other
  values are not iterable.
\<close>

definition positions_of_data :: "decoders \<Rightarrow> json \<Rightarrow> position_error + TextPosition list" where
  "positions_of_data dec pos_data =
     (case pos_data of
        JList ps \<Rightarrow> build_positions dec ps
      | JDict kv \<Rightarrow> (if kv = [] then Inr [] else Inl PosTypeError)
      | JStr s \<Rightarrow> (if s = [] then Inr [] else Inl PosTypeError)
      | _ \<Rightarrow> Inl PosTypeError)"

text \<open>
  The \<open>try\<close> block: \<open>except (json.JSONDecodeError, TypeError): pass\<close> leaves
  \<open>positions = []\<close>; a validation error is neither and leaves the block.
\<close>

definition parse_positions :: "decoders \<Rightarrow> metadata \<Rightarrow> error + TextPosition list" where
  "parse_positions dec md =
     (case md_positions md of
        None \<Rightarrow> Inr []
      | Some s \<Rightarrow>
          if s = [] then Inr []
          else (case json_loads dec s of
                  None \<Rightarrow> Inr []
                | Some pos_data \<Rightarrow>
                    (case positions_of_data dec pos_data of
                       Inr tps \<Rightarrow> Inr tps
                     | Inl PosTypeError \<Rightarrow> Inr []
                     | Inl PosValidationError \<Rightarrow> Inl ValidationError)))"

definition excerpt_of :: "string \<Rightarrow> string" where
  "excerpt_of document = (if length document > 300 then take 300 document @ ''...'' else document)"

text \<open>The body of the loop over the rows: one citation, or the exception it raises.\<close>

definition citation_of_row :: "decoders \<Rightarrow> result_row \<Rightarrow> error + Citation" where
  "citation_of_row dec row =
     (let md = row_metadata row; document = row_document row
      in case parse_positions dec md of
           Inl e \<Rightarrow> Inl e
         | Inr poss \<Rightarrow>
        (case md_document_id md of
           None \<Rightarrow> Inl (KeyError ''document_id'')
         | Some doc_id \<Rightarrow>
        (case md_document_title md of
           None \<Rightarrow> Inl (KeyError ''document_title'')
         | Some title \<Rightarrow>
        (case md_page_number md of
           None \<Rightarrow> Inl (KeyError ''page_number'')
         | Some pn \<Rightarrow>
             Inr \<lparr>cit_id = row_id row,
                  cit_document_id = doc_id,
                  cit_document_title = title,
                  cit_page_number = pn,
                  excerpt = excerpt_of document,
                  cit_positions = take 5 poss,
                  relevance_score = score_of_distance dec (row_distance row),
                  pdf_url = ''/pdfs/'' @ py_replace ''CME-'' [] doc_id @ ''.pdf''\<rparr>))))"

fun assemble :: "decoders \<Rightarrow> result_row list \<Rightarrow> error + Citation list" where
  "assemble dec [] = Inr []"
| "assemble dec (row # rows) =
     (case citation_of_row dec row of
        Inl e \<Rightarrow> Inl e
      | Inr c \<Rightarrow>
          (case assemble dec rows of
             Inl e \<Rightarrow> Inl e
           | Inr cs \<Rightarrow> Inr (c # cs)))"

text \<open>
  The index is a collaborator: \<open>collection.query\<close> maps the query text, the limit and
  the optional filter on the document id to its rows.
\<close>

definition search ::
  "(string \<Rightarrow> int \<Rightarrow> string option \<Rightarrow> result_row list) \<Rightarrow> decoders
     \<Rightarrow> string \<Rightarrow> int \<Rightarrow> string option \<Rightarrow> error + Citation list" where
  "search query_index dec query limit document_filter =
     (let where_filter = (case document_filter of
                            None \<Rightarrow> None
                          | Some d \<Rightarrow> if d = [] then None else Some d)
      in assemble dec (query_index query limit where_filter))"

section \<open>Notions used to state the properties\<close>

definition yield_texts :: "nat \<times> string list \<times> bbox list \<Rightarrow> string list" where
  "yield_texts y = fst (snd y)"

definition yield_boxes :: "nat \<times> string list \<times> bbox list \<Rightarrow> bbox list" where
  "yield_boxes y = snd (snd y)"

definition overlap_ok ::
  "nat \<times> string list \<times> bbox list \<Rightarrow> nat \<times> string list \<times> bbox list \<Rightarrow> bool" where
  "overlap_ok a b =
     (let k = min 3 (length (fst (snd a)))
      in take k (fst (snd b)) = drop (length (fst (snd a)) - k) (fst (snd a))
       \<and> take k (snd (snd b)) = drop (length (snd (snd a)) - k) (snd (snd a)))"

text \<open>The end of a page: the remaining chunk, if any, is yielded.\<close>

definition finish :: "builder \<Rightarrow> builder" where
  "finish st = (if current_chunk_text st \<noteq> [] then emit st else st)"

subsection \<open>Concrete inputs\<close>

definition mk_span :: "string \<Rightarrow> bbox \<Rightarrow> raw_span" where
  "mk_span t b = \<lparr>span_text = t, span_bbox = b\<rparr>"

text \<open>
  A page of one text block with one line of the given spans; its search finds nothing,
  and returns \<open>None\<close> for the empty text.
\<close>

definition mk_page :: "raw_span list \<Rightarrow> page" where
  "mk_page spans = \<lparr>blocks = [\<lparr>block_type = 0, block_lines = [spans]\<rparr>],
                     rect_width = 612, rect_height = 792,
                     search_for = (\<lambda>s. if s = [] then None else Some [])\<rparr>"

text \<open>The page of the specification's example, as the only page of document CME-101.\<close>

definition rule_spans :: "raw_span list" where
  "rule_spans = [mk_span ''Rule'' (0, 0, 4, 1), mk_span ''101:'' (5, 0, 9, 1),
                 mk_span ''Position'' (10, 0, 18, 1), mk_span ''Limits'' (19, 0, 25, 1)]"

definition rule_store :: pdf_store where
  "rule_store = \<lparr>files = [''101.pdf'' \<mapsto> Pdf [mk_page rule_spans]],
                 title_of = (\<lambda>f. ''CME Rule 101'')\<rparr>"

text \<open>A page with a short span followed by one longer than a chunk size of 5.\<close>

definition wide_spans :: "raw_span list" where
  "wide_spans = [mk_span ''a'' (0, 0, 1, 1), mk_span ''bbbbbb'' (2, 0, 8, 1)]"

definition wide_store :: pdf_store where
  "wide_store = \<lparr>files = [''7.pdf'' \<mapsto> Pdf [mk_page wide_spans]],
                 title_of = (\<lambda>f. ''CME Rule 7'')\<rparr>"

text \<open>A document of two pages: the example page, then the page with the wide span.\<close>

definition two_page_store :: pdf_store where
  "two_page_store = \<lparr>files = [''9.pdf'' \<mapsto> Pdf [mk_page rule_spans, mk_page wide_spans]],
                     title_of = (\<lambda>f. ''CME Rule 9'')\<rparr>"

definition two_page_chunks :: "DocumentChunk list" where
  "two_page_chunks =
     [\<lparr>chunk_id = ''CME-9-p1-c0'', document_id = ''CME-9'', document_title = ''CME Rule 9'',
       page_number = 1, chunk_index = 0, chunk_text = ''Rule 101:'',
       positions = [\<lparr>x0 = 0, y0 = 0, x1 = 4, y1 = 1\<rparr>, \<lparr>x0 = 5, y0 = 0, x1 = 9, y1 = 1\<rparr>]\<rparr>,
      \<lparr>chunk_id = ''CME-9-p1-c1'', document_id = ''CME-9'', document_title = ''CME Rule 9'',
       page_number = 1, chunk_index = 1, chunk_text = ''Rule 101: Position'',
       positions = [\<lparr>x0 = 0, y0 = 0, x1 = 4, y1 = 1\<rparr>, \<lparr>x0 = 5, y0 = 0, x1 = 9, y1 = 1\<rparr>,
                    \<lparr>x0 = 10, y0 = 0, x1 = 18, y1 = 1\<rparr>]\<rparr>,
      \<lparr>chunk_id = ''CME-9-p1-c2'', document_id = ''CME-9'', document_title = ''CME Rule 9'',
       page_number = 1, chunk_index = 2, chunk_text = ''Rule 101: Position Limits'',
       positions = [\<lparr>x0 = 0, y0 = 0, x1 = 4, y1 = 1\<rparr>, \<lparr>x0 = 5, y0 = 0, x1 = 9, y1 = 1\<rparr>,
                    \<lparr>x0 = 10, y0 = 0, x1 = 18, y1 = 1\<rparr>, \<lparr>x0 = 19, y0 = 0, x1 = 25, y1 = 1\<rparr>]\<rparr>,
      \<lparr>chunk_id = ''CME-9-p2-c3'', document_id = ''CME-9'', document_title = ''CME Rule 9'',
       page_number = 2, chunk_index = 3, chunk_text = ''a bbbbbb'',
       positions = [\<lparr>x0 = 0, y0 = 0, x1 = 1, y1 = 1\<rparr>, \<lparr>x0 = 2, y0 = 0, x1 = 8, y1 = 1\<rparr>]\<rparr>]"

text \<open>
  Rows of the index. The decoders agree with \<open>json.loads\<close> on the strings used here,
  and give the scores of the two distances used here: 0.75 at 0.5 and 0.5 at 1.0.
\<close>

definition sample_decoders :: decoders where
  "sample_decoders =
     \<lparr>json_loads = (\<lambda>s. if s = ''[]'' then Some (JList [])
                         else if s = ''[{}]'' then Some (JList [JDict []])
                         else None),
      validate_float = (\<lambda>j. case j of JNum r \<Rightarrow> Some r | _ \<Rightarrow> None),
      score_of_distance = (\<lambda>d. if d = 1 / 2 then 3 / 4 else if d = 1 then 1 / 2 else 0)\<rparr>"

definition full_metadata :: "string \<Rightarrow> metadata" where
  "full_metadata pos =
     \<lparr>md_document_id = Some ''CME-101'', md_document_title = Some ''CME Rule 101'',
      md_page_number = Some 1, md_chunk_index = Some 0, md_positions = Some pos\<rparr>"

definition good_row :: result_row where
  "good_row = \<lparr>row_id = ''CME-101-p1-c0'', row_metadata = full_metadata ''[]'',
               row_document = ''Rule 101:'', row_distance = 1 / 2\<rparr>"

text \<open>A row without \<open>document_id\<close>.\<close>

definition bad_row :: result_row where
  "bad_row = \<lparr>row_id = ''CME-101-p1-c1'',
              row_metadata = (full_metadata ''[]'')\<lparr>md_document_id := None\<rparr>,
              row_document = ''Rule 101: Position'', row_distance = 1\<rparr>"

text \<open>A row whose positions are valid JSON of the wrong shape: a list of one empty object.\<close>

definition shape_row :: result_row where
  "shape_row = \<lparr>row_id = ''CME-101-p1-c2'', row_metadata = full_metadata ''[{}]'',
                row_document = ''Rule 101: Position Limits'', row_distance = 1\<rparr>"

text \<open>A row with a document of 301 characters.\<close>

definition long_row :: result_row where
  "long_row = \<lparr>row_id = ''CME-101-p1-c3'', row_metadata = full_metadata ''[]'',
               row_document = replicate 301 CHR ''x'', row_distance = 1 / 2\<rparr>"

definition good_citation :: Citation where
  "good_citation =
     \<lparr>cit_id = ''CME-101-p1-c0'', cit_document_id = ''CME-101'',
      cit_document_title = ''CME Rule 101'', cit_page_number = 1,
      excerpt = ''Rule 101:'', cit_positions = [],
      relevance_score = 3 / 4, pdf_url = ''/pdfs/101.pdf''\<rparr>"

definition long_citation :: Citation where
  "long_citation =
     \<lparr>cit_id = ''CME-101-p1-c3'', cit_document_id = ''CME-101'',
      cit_document_title = ''CME Rule 101'', cit_page_number = 1,
      excerpt = replicate 300 CHR ''x'' @ ''...'', cit_positions = [],
      relevance_score = 3 / 4, pdf_url = ''/pdfs/101.pdf''\<rparr>"

section \<open>The chunk loop: invariants\<close>

lemma span_loop_Nil: "span_loop cs idx [] = page_start idx"
  by (simp add: span_loop_def)

lemma span_loop_snoc:
  "span_loop cs idx (spans @ [sp]) = span_step cs (span_loop cs idx spans) sp"
  by (simp add: span_loop_def)

lemma build_page_finish: "build_page cs idx spans = finish (span_loop cs idx spans)"
  by (simp add: build_page_def finish_def Let_def)

lemma overlap_of_eq: "overlap_of xs = drop (length xs - min 3 (length xs)) xs"
  by (simp add: overlap_of_def min_def)

lemma length_overlap_of: "length (overlap_of xs) = min 3 (length xs)"
  by (simp add: overlap_of_def min_def)

text \<open>
  After any number of spans: the two accumulators have the same length, the running
  length is the sum of the span lengths, the accumulator is non-empty once a span was
  seen, and the indices yielded so far count up from the index the page started with.
\<close>

lemma loop_inv:
  "length (current_chunk_text (span_loop cs idx spans))
     = length (current_chunk_positions (span_loop cs idx spans))
   \<and> current_length (span_loop cs idx spans)
     = sum_list (map length (current_chunk_text (span_loop cs idx spans)))
   \<and> (spans \<noteq> [] \<longrightarrow> current_chunk_text (span_loop cs idx spans) \<noteq> [])
   \<and> next_chunk_index (span_loop cs idx spans) = idx + length (yielded (span_loop cs idx spans))
   \<and> map fst (yielded (span_loop cs idx spans))
     = [idx ..< idx + length (yielded (span_loop cs idx spans))]
   \<and> (\<forall>y \<in> set (yielded (span_loop cs idx spans)).
        length (fst (snd y)) = length (snd (snd y)) \<and> fst (snd y) \<noteq> [])"
proof (induction spans rule: rev_induct)
  case Nil
  show ?case by (simp add: span_loop_Nil page_start_def)
next
  case (snoc sp spans)
  define st where "st = span_loop cs idx spans"
  from snoc show ?case
    unfolding span_loop_snoc st_def [symmetric]
    by (auto simp: span_step_def emit_def Let_def length_overlap_of)
qed

lemma build_page_inv:
  "next_chunk_index (build_page cs idx spans) = idx + length (yielded (build_page cs idx spans))
   \<and> map fst (yielded (build_page cs idx spans))
     = [idx ..< idx + length (yielded (build_page cs idx spans))]
   \<and> (\<forall>y \<in> set (yielded (build_page cs idx spans)).
        length (fst (snd y)) = length (snd (snd y)) \<and> fst (snd y) \<noteq> [])"
proof -
  define st where "st = span_loop cs idx spans"
  from loop_inv [of cs idx spans, folded st_def] show ?thesis
    unfolding build_page_def Let_def st_def [symmetric]
    by (auto simp: emit_def)
qed

lemma chain_snoc:
  assumes "\<forall>i. Suc i < length ys \<longrightarrow> P (ys ! i) (ys ! Suc i)"
    and "ys \<noteq> [] \<Longrightarrow> P (last ys) y"
  shows "\<forall>i. Suc i < length (ys @ [y]) \<longrightarrow> P ((ys @ [y]) ! i) ((ys @ [y]) ! Suc i)"
proof (intro allI impI)
  fix i assume i: "Suc i < length (ys @ [y])"
  show "P ((ys @ [y]) ! i) ((ys @ [y]) ! Suc i)"
  proof (cases "Suc i < length ys")
    case True
    with assms(1) show ?thesis by (simp add: nth_append)
  next
    case False
    with i have eq: "Suc i = length ys" by simp
    then have ne: "ys \<noteq> []" by auto
    from eq have "i = length ys - 1" by simp
    with ne eq have "(ys @ [y]) ! i = last ys" "(ys @ [y]) ! Suc i = y"
      by (simp_all add: nth_append last_conv_nth)
    with assms(2) ne show ?thesis by simp
  qed
qed

lemma prefix_overlap_take:
  "prefix (overlap_of xs) zs \<Longrightarrow> length ws = length xs \<Longrightarrow>
   take (min 3 (length ws)) zs = drop (length xs - min 3 (length ws)) xs"
  by (auto simp: prefix_def overlap_of_eq)

text \<open>
  A full accumulator that follows a yielded chunk starts with that chunk's overlap, so
  the chunk it becomes overlaps its predecessor.
\<close>

lemma seeded_overlap_ok:
  assumes "prefix (overlap_of (fst (snd y))) texts"
    and "prefix (overlap_of (snd (snd y))) boxes"
    and "length (fst (snd y)) = length (snd (snd y))"
  shows "overlap_ok y (n, texts, boxes)"
  unfolding overlap_ok_def Let_def fst_conv snd_conv
  using prefix_overlap_take [OF assms(1) refl] prefix_overlap_take [OF assms(2) assms(3)]
  by blast

lemma loop_chain:
  "(\<forall>i. Suc i < length (yielded (span_loop cs idx spans)) \<longrightarrow>
        overlap_ok (yielded (span_loop cs idx spans) ! i) (yielded (span_loop cs idx spans) ! Suc i))
   \<and> (yielded (span_loop cs idx spans) \<noteq> [] \<longrightarrow>
        prefix (overlap_of (fst (snd (last (yielded (span_loop cs idx spans))))))
               (current_chunk_text (span_loop cs idx spans))
      \<and> prefix (overlap_of (snd (snd (last (yielded (span_loop cs idx spans))))))
               (current_chunk_positions (span_loop cs idx spans)))"
proof (induction spans rule: rev_induct)
  case Nil
  show ?case by (simp add: span_loop_Nil page_start_def)
next
  case (snoc sp spans)
  define st where "st = span_loop cs idx spans"
  have len: "\<forall>y \<in> set (yielded st). length (fst (snd y)) = length (snd (snd y))"
    using loop_inv [of cs idx spans] by (simp add: st_def)
  note IH = snoc [folded st_def]
  show ?case unfolding span_loop_snoc st_def [symmetric]
  proof (cases "int (current_length st) + int (length (span_text sp)) > cs
                \<and> current_chunk_text st \<noteq> []")
    case False
    with IH show "(\<forall>i. Suc i < length (yielded (span_step cs st sp)) \<longrightarrow>
        overlap_ok (yielded (span_step cs st sp) ! i) (yielded (span_step cs st sp) ! Suc i))
      \<and> (yielded (span_step cs st sp) \<noteq> [] \<longrightarrow>
        prefix (overlap_of (fst (snd (last (yielded (span_step cs st sp))))))
               (current_chunk_text (span_step cs st sp))
      \<and> prefix (overlap_of (snd (snd (last (yielded (span_step cs st sp))))))
               (current_chunk_positions (span_step cs st sp)))"
      by (auto simp: span_step_def Let_def)
  next
    case True
    have last_ok: "overlap_ok (last (yielded st))
             (next_chunk_index st, current_chunk_text st, current_chunk_positions st)"
      if ne: "yielded st \<noteq> []"
      using IH ne len by (intro seeded_overlap_ok) simp_all
    have ch: "\<forall>i. Suc i < length (yielded (emit st)) \<longrightarrow>
        overlap_ok (yielded (emit st) ! i) (yielded (emit st) ! Suc i)"
      unfolding emit_def using chain_snoc [of "yielded st" overlap_ok, OF _ last_ok] IH
      by simp
    from True ch show "(\<forall>i. Suc i < length (yielded (span_step cs st sp)) \<longrightarrow>
        overlap_ok (yielded (span_step cs st sp) ! i) (yielded (span_step cs st sp) ! Suc i))
      \<and> (yielded (span_step cs st sp) \<noteq> [] \<longrightarrow>
        prefix (overlap_of (fst (snd (last (yielded (span_step cs st sp))))))
               (current_chunk_text (span_step cs st sp))
      \<and> prefix (overlap_of (snd (snd (last (yielded (span_step cs st sp))))))
               (current_chunk_positions (span_step cs st sp)))"
      by (simp add: span_step_def Let_def) (simp add: emit_def)
  qed
qed

lemma build_page_chain:
  "\<forall>i. Suc i < length (yielded (build_page cs idx spans)) \<longrightarrow>
        overlap_ok (yielded (build_page cs idx spans) ! i) (yielded (build_page cs idx spans) ! Suc i)"
proof -
  define st where "st = span_loop cs idx spans"
  have len: "\<forall>y \<in> set (yielded st). length (fst (snd y)) = length (snd (snd y))"
    using loop_inv [of cs idx spans] by (simp add: st_def)
  note ch = loop_chain [of cs idx spans, folded st_def]
  have last_ok: "overlap_ok (last (yielded st))
             (next_chunk_index st, current_chunk_text st, current_chunk_positions st)"
      if ne: "yielded st \<noteq> []"
    using ch ne len by (intro seeded_overlap_ok) simp_all
  have "\<forall>i. Suc i < length (yielded (emit st)) \<longrightarrow>
        overlap_ok (yielded (emit st) ! i) (yielded (emit st) ! Suc i)"
    unfolding emit_def using chain_snoc [of "yielded st" overlap_ok, OF _ last_ok] ch
    by simp
  with ch show ?thesis
    unfolding build_page_def Let_def st_def [symmetric] by simp
qed

text \<open>Chunks are only ever added to the output.\<close>

lemma step_yield_prefix: "\<exists>zs. yielded (span_step cs st sp) = yielded st @ zs"
  by (simp add: span_step_def Let_def emit_def)

lemma foldl_yield_prefix: "\<exists>zs. yielded (foldl (span_step cs) st xs) = yielded st @ zs"
proof (induction xs arbitrary: st)
  case Nil
  show ?case by simp
next
  case (Cons x xs)
  from Cons [of "span_step cs st x"] step_yield_prefix [of cs st x]
  show ?case by auto
qed

lemma finish_yield_prefix: "\<exists>zs. yielded (finish st) = yielded st @ zs"
  by (simp add: finish_def emit_def)

text \<open>
  An accumulator that is already over the chunk size is yielded as it is: by the next
  span if there is one, by the end of the page otherwise.
\<close>

lemma full_accumulator_emitted:
  assumes "current_chunk_text st \<noteq> []" "int (current_length st) > cs"
  shows "\<exists>zs. yielded (finish (foldl (span_step cs) st xs))
     = yielded st @ [(next_chunk_index st, current_chunk_text st, current_chunk_positions st)] @ zs"
proof (cases xs)
  case Nil
  with assms show ?thesis by (simp add: finish_def emit_def)
next
  case (Cons x xs')
  from assms have "yielded (span_step cs st x)
     = yielded st @ [(next_chunk_index st, current_chunk_text st, current_chunk_positions st)]"
    by (simp add: span_step_def Let_def emit_def)
  moreover obtain zs where "yielded (foldl (span_step cs) (span_step cs st x) xs')
     = yielded (span_step cs st x) @ zs"
    using foldl_yield_prefix by blast
  moreover obtain zs' where "yielded (finish (foldl (span_step cs) (span_step cs st x) xs'))
     = yielded (foldl (span_step cs) (span_step cs st x) xs') @ zs'"
    using finish_yield_prefix by blast
  ultimately show ?thesis using Cons by simp
qed

lemmas chunking_defs =
  extract_document_chunks_def get_pdf_path_def build_page_def span_loop_def span_step_def
  emit_def page_start_def overlap_of_def collect_page_spans_def make_chunk_def to_position_def
  py_strip_def isspace_def mk_span_def mk_page_def Let_def

section \<open>The chunk builder: overlap, oversized spans, the example\<close>

text \<open>
  C1. On every page, each yielded chunk but the first starts with the last
  \<open>min 3 n\<close> spans of the chunk yielded just before it on that page, \<open>n\<close> being that
  chunk's number of spans: the same texts and the same boxes, in the same order.
  (\<open>build_page\<close> is the loop \<open>extract_document_chunks\<close> runs for each page, whatever
  the running chunk index \<open>idx\<close> is.)
\<close>

theorem overlap_contract:
  assumes "Suc i < length (yielded (build_page chunk_size idx spans))"
  shows "(let ys = yielded (build_page chunk_size idx spans);
              prev = ys ! i; this = ys ! Suc i;
              k = min 3 (length (yield_texts prev))
          in length (yield_boxes prev) = length (yield_texts prev)
           \<and> take k (yield_texts this) = drop (length (yield_texts prev) - k) (yield_texts prev)
           \<and> take k (yield_boxes this) = drop (length (yield_boxes prev) - k) (yield_boxes prev))"
proof -
  from assms have "yielded (build_page chunk_size idx spans) ! i
      \<in> set (yielded (build_page chunk_size idx spans))"
    by simp
  then have "length (yield_boxes (yielded (build_page chunk_size idx spans) ! i))
     = length (yield_texts (yielded (build_page chunk_size idx spans) ! i))"
    using build_page_inv [of chunk_size idx spans] by (simp add: yield_texts_def yield_boxes_def)
  moreover have "overlap_ok (yielded (build_page chunk_size idx spans) ! i)
                            (yielded (build_page chunk_size idx spans) ! Suc i)"
    using build_page_chain assms by blast
  ultimately show ?thesis
    by (simp add: overlap_ok_def Let_def yield_texts_def yield_boxes_def)
qed

theorem overlap_contract_witness:
  "Suc 1 < length (yielded (build_page 10 0 rule_spans))
   \<and> (let ys = yielded (build_page 10 0 rule_spans);
          prev = ys ! 1; this = ys ! Suc 1;
          k = min 3 (length (yield_texts prev))
      in length (yield_boxes prev) = length (yield_texts prev)
       \<and> take k (yield_texts this) = drop (length (yield_texts prev) - k) (yield_texts prev)
       \<and> take k (yield_boxes this) = drop (length (yield_boxes prev) - k) (yield_boxes prev))"
proof -
  have h: "Suc 1 < length (yielded (build_page 10 0 rule_spans))"
    by (simp add: rule_spans_def chunking_defs)
  from overlap_contract [OF h] h show ?thesis by simp
qed

text \<open>
  C2, as the code has it. The page Rule, 101:, Position, Limits with a chunk size of
  10 and \<open>chunk_overlap = 1\<close>: the loop carries over the last three spans whatever
  \<open>chunk_overlap\<close> is, so the first chunk (two spans) is carried over whole, and three
  chunks come out: Rule 101:, then Rule 101: Position, then Rule 101: Position Limits.
\<close>

theorem rule_example_three_chunks:
  "extract_document_chunks rule_store ''CME-101'' 10 1 =
     Inr [\<lparr>chunk_id = ''CME-101-p1-c0'', document_id = ''CME-101'',
           document_title = ''CME Rule 101'', page_number = 1, chunk_index = 0,
           chunk_text = ''Rule 101:'',
           positions = [\<lparr>x0 = 0, y0 = 0, x1 = 4, y1 = 1\<rparr>, \<lparr>x0 = 5, y0 = 0, x1 = 9, y1 = 1\<rparr>]\<rparr>,
          \<lparr>chunk_id = ''CME-101-p1-c1'', document_id = ''CME-101'',
           document_title = ''CME Rule 101'', page_number = 1, chunk_index = 1,
           chunk_text = ''Rule 101: Position'',
           positions = [\<lparr>x0 = 0, y0 = 0, x1 = 4, y1 = 1\<rparr>, \<lparr>x0 = 5, y0 = 0, x1 = 9, y1 = 1\<rparr>,
                        \<lparr>x0 = 10, y0 = 0, x1 = 18, y1 = 1\<rparr>]\<rparr>,
          \<lparr>chunk_id = ''CME-101-p1-c2'', document_id = ''CME-101'',
           document_title = ''CME Rule 101'', page_number = 1, chunk_index = 2,
           chunk_text = ''Rule 101: Position Limits'',
           positions = [\<lparr>x0 = 0, y0 = 0, x1 = 4, y1 = 1\<rparr>, \<lparr>x0 = 5, y0 = 0, x1 = 9, y1 = 1\<rparr>,
                        \<lparr>x0 = 10, y0 = 0, x1 = 18, y1 = 1\<rparr>,
                        \<lparr>x0 = 19, y0 = 0, x1 = 25, y1 = 1\<rparr>]\<rparr>]"
  by (simp add: rule_store_def rule_spans_def chunking_defs str_int_def str_nat.simps digit_char_def)

text \<open>The output is not the two chunks Rule 101: and 101: Position Limits.\<close>

theorem rule_example_not_two_chunks:
  "(case extract_document_chunks rule_store ''CME-101'' 10 1 of
      Inl e \<Rightarrow> None
    | Inr chunks \<Rightarrow> Some (map chunk_text chunks))
   \<noteq> Some [''Rule 101:'', ''101: Position Limits'']"
  by (simp add: rule_store_def rule_spans_def chunking_defs)

text \<open>
  C3, as the code has it. A span longer than the chunk size is never split. When it
  arrives, the chunks yielded so far are those the page would give if it ended just
  before the span (a non-empty accumulator is yielded first), and the next chunk is the
  overlap of the chunk just yielded followed by the wide span as its last span. The
  span is alone in that chunk only when it is the first span of its page.
\<close>

theorem oversized_span_chunk:
  assumes "int (length (span_text s)) > chunk_size"
  shows "\<exists>zs. yielded (build_page chunk_size idx (pre @ s # post))
     = yielded (build_page chunk_size idx pre)
       @ [(idx + length (yielded (build_page chunk_size idx pre)),
           (if pre = [] then []
            else overlap_of (yield_texts (last (yielded (build_page chunk_size idx pre)))))
             @ [span_text s],
           (if pre = [] then []
            else overlap_of (yield_boxes (last (yielded (build_page chunk_size idx pre)))))
             @ [span_bbox s])]
       @ zs"
proof -
  define st where "st = span_loop chunk_size idx pre"
  define st' where "st' = span_step chunk_size st s"
  note inv = loop_inv [of chunk_size idx pre, folded st_def]
  have split: "span_loop chunk_size idx (pre @ s # post) = foldl (span_step chunk_size) st' post"
    by (simp add: span_loop_def st_def st'_def)
  have y: "yielded st' = yielded (build_page chunk_size idx pre)"
    using inv assms unfolding st'_def build_page_def Let_def st_def [symmetric]
    by (cases "pre = []")
       (simp_all add: span_step_def Let_def st_def span_loop_Nil page_start_def)
  have t: "current_chunk_text st' =
      (if pre = [] then []
       else overlap_of (yield_texts (last (yielded (build_page chunk_size idx pre)))))
      @ [span_text s]"
    using inv assms unfolding st'_def build_page_def Let_def st_def [symmetric]
    by (cases "pre = []")
       (simp_all add: span_step_def Let_def st_def span_loop_Nil page_start_def emit_def
          yield_texts_def)
  have b: "current_chunk_positions st' =
      (if pre = [] then []
       else overlap_of (yield_boxes (last (yielded (build_page chunk_size idx pre)))))
      @ [span_bbox s]"
    using inv assms unfolding st'_def build_page_def Let_def st_def [symmetric]
    by (cases "pre = []")
       (simp_all add: span_step_def Let_def st_def span_loop_Nil page_start_def emit_def
          yield_boxes_def)
  have n: "next_chunk_index st' = idx + length (yielded (build_page chunk_size idx pre))"
    using inv assms unfolding st'_def build_page_def Let_def st_def [symmetric]
    by (cases "pre = []")
       (simp_all add: span_step_def Let_def st_def span_loop_Nil page_start_def emit_def)
  have l: "int (current_length st') > chunk_size"
    using assms unfolding st'_def by (simp add: span_step_def Let_def)
  have ne: "current_chunk_text st' \<noteq> []" using t by simp
  from full_accumulator_emitted [OF ne l, of post]
  show ?thesis
    unfolding build_page_finish split y t b n by simp
qed

theorem oversized_span_chunk_witness:
  "int (length (span_text (mk_span ''bbbbbb'' (2, 0, 8, 1)))) > 5
   \<and> (\<exists>zs. yielded (build_page 5 0 wide_spans)
        = [(0, [''a''], [(0, 0, 1, 1)]),
           (1, [''a'', ''bbbbbb''], [(0, 0, 1, 1), (2, 0, 8, 1)])] @ zs)"
proof -
  have h: "int (length (span_text (mk_span ''bbbbbb'' (2, 0, 8, 1)))) > 5"
    by (simp add: mk_span_def)
  have p: "yielded (build_page 5 0 [mk_span ''a'' (0, 0, 1, 1)]) = [(0, [''a''], [(0, 0, 1, 1)])]"
    by (simp add: chunking_defs)
  from oversized_span_chunk [OF h, of 0 "[mk_span ''a'' (0, 0, 1, 1)]" "[]"] h
  show ?thesis
    unfolding p wide_spans_def by (simp add: mk_span_def overlap_of_def yield_texts_def yield_boxes_def)
qed

text \<open>
  The wide span is not always alone in its chunk: on the two-span page a, bbbbbb with a
  chunk size of 5, the chunk that holds the wide span also holds the span carried over
  before it.
\<close>

theorem oversized_span_not_alone:
  "extract_document_chunks wide_store ''CME-7'' 5 100 =
     Inr [\<lparr>chunk_id = ''CME-7-p1-c0'', document_id = ''CME-7'',
           document_title = ''CME Rule 7'', page_number = 1, chunk_index = 0,
           chunk_text = ''a'',
           positions = [\<lparr>x0 = 0, y0 = 0, x1 = 1, y1 = 1\<rparr>]\<rparr>,
          \<lparr>chunk_id = ''CME-7-p1-c1'', document_id = ''CME-7'',
           document_title = ''CME Rule 7'', page_number = 1, chunk_index = 1,
           chunk_text = ''a bbbbbb'',
           positions = [\<lparr>x0 = 0, y0 = 0, x1 = 1, y1 = 1\<rparr>, \<lparr>x0 = 2, y0 = 0, x1 = 8, y1 = 1\<rparr>]\<rparr>]"
  by (simp add: wide_store_def wide_spans_def chunking_defs str_int_def str_nat.simps digit_char_def)

section \<open>Chunk indices and ids across the pages of a document\<close>

lemma make_chunk_simps:
  "chunk_index (make_chunk did title pn y) = int (fst y)"
  "page_number (make_chunk did title pn y) = int pn + 1"
  "chunk_id (make_chunk did title pn y)
     = did @ ''-p'' @ str_int (int pn + 1) @ ''-c'' @ str_int (int (fst y))"
  "chunk_text (make_chunk did title pn y) = join_space (yield_texts y)"
  "positions (make_chunk did title pn y) = map to_position (yield_boxes y)"
  by (simp_all add: make_chunk_def yield_texts_def yield_boxes_def split: prod.splits)

lemma pages_loop_index:
  "map chunk_index (pages_loop did title cs pn idx ps)
     = map int [idx ..< idx + length (pages_loop did title cs pn idx ps)]"
proof (induction ps arbitrary: pn idx)
  case Nil
  show ?case by simp
next
  case (Cons p ps)
  define st where "st = build_page cs idx (collect_page_spans p)"
  define rest where "rest = pages_loop did title cs (Suc pn) (next_chunk_index st) ps"
  have nx: "next_chunk_index st = idx + length (yielded st)"
    and fs: "map fst (yielded st) = [idx ..< idx + length (yielded st)]"
    using build_page_inv [of cs idx "collect_page_spans p"] by (simp_all add: st_def)
  have a: "map chunk_index (map (make_chunk did title pn) (yielded st))
      = map int (map fst (yielded st))"
    by (simp add: make_chunk_simps)
  have b: "map chunk_index rest
      = map int [idx + length (yielded st) ..< idx + length (yielded st) + length rest]"
    using Cons [of "Suc pn" "next_chunk_index st"] by (simp add: rest_def nx)
  have "[idx ..< idx + (length (yielded st) + length rest)]
      = [idx ..< idx + length (yielded st)]
        @ [idx + length (yielded st) ..< idx + length (yielded st) + length rest]"
    using upt_add_eq_append [of idx "idx + length (yielded st)" "length rest"]
    by (simp add: add.assoc)
  with a b fs show ?case
    by (simp add: Let_def st_def [symmetric] rest_def [symmetric])
qed

lemma pages_loop_ids:
  "\<forall>c \<in> set (pages_loop did title cs pn idx ps).
      chunk_id c = did @ ''-p'' @ str_int (page_number c) @ ''-c'' @ str_int (chunk_index c)
    \<and> int pn < page_number c \<and> page_number c \<le> int pn + int (length ps)"
proof (induction ps arbitrary: pn idx)
  case Nil
  show ?case by simp
next
  case (Cons p ps)
  define st where "st = build_page cs idx (collect_page_spans p)"
  from Cons [of "Suc pn" "next_chunk_index st"] show ?case
    by (auto simp: Let_def st_def [symmetric] make_chunk_simps)
qed

text \<open>The chunks numbered for page \<open>k + 1\<close> are the chunks of the loop over that page's spans.\<close>

lemma pages_loop_page:
  "k < length ps \<Longrightarrow>
   \<exists>j. filter (\<lambda>c. page_number c = int (pn + k) + 1) (pages_loop did title cs pn idx ps)
      = map (make_chunk did title (pn + k))
            (yielded (build_page cs j (collect_page_spans (ps ! k))))"
proof (induction ps arbitrary: pn idx k)
  case Nil
  then show ?case by simp
next
  case (Cons p ps)
  define st where "st = build_page cs idx (collect_page_spans p)"
  define rest where "rest = pages_loop did title cs (Suc pn) (next_chunk_index st) ps"
  have later: "\<forall>c \<in> set rest. int (Suc pn) < page_number c"
    using pages_loop_ids [of did title cs "Suc pn" "next_chunk_index st" ps]
    by (simp add: rest_def)
  show ?case
  proof (cases k)
    case 0
    have "filter (\<lambda>c. page_number c = int pn + 1) rest = []"
      using later by (auto simp: filter_empty_conv)
    moreover have "filter (\<lambda>c. page_number c = int pn + 1)
          (map (make_chunk did title pn) (yielded st))
        = map (make_chunk did title pn) (yielded st)"
      by (simp add: filter_map o_def make_chunk_simps)
    ultimately have "filter (\<lambda>c. page_number c = int (pn + k) + 1)
          (pages_loop did title cs pn idx (p # ps))
        = map (make_chunk did title (pn + k))
              (yielded (build_page cs idx (collect_page_spans ((p # ps) ! k))))"
      using 0 by (simp add: Let_def st_def [symmetric] rest_def [symmetric])
    then show ?thesis by blast
  next
    case (Suc k')
    with Cons.prems have "k' < length ps" by simp
    from Cons.IH [OF this, of "Suc pn" "next_chunk_index st"] obtain j where
      j: "filter (\<lambda>c. page_number c = int (Suc pn + k') + 1) rest
          = map (make_chunk did title (Suc pn + k'))
                (yielded (build_page cs j (collect_page_spans (ps ! k'))))"
      by (auto simp: rest_def)
    have "filter (\<lambda>c. page_number c = int (Suc pn + k') + 1)
            (map (make_chunk did title pn) (yielded st)) = []"
      by (simp add: filter_map o_def make_chunk_simps)
    with j Suc have "filter (\<lambda>c. page_number c = int (pn + k) + 1)
          (pages_loop did title cs pn idx (p # ps))
        = map (make_chunk did title (pn + k))
              (yielded (build_page cs j (collect_page_spans ((p # ps) ! k))))"
      by (simp add: Let_def st_def [symmetric] rest_def [symmetric])
    then show ?thesis by blast
  qed
qed

text \<open>
  C9. When a document is chunked, the chunk indices are 0, 1, 2, ... in emission
  order over the whole document (the count goes on across page boundaries), every id
  is the document id, \<open>-p\<close>, the page number, \<open>-c\<close> and the chunk index, and the page
  number is 1-indexed: the chunks numbered \<open>k + 1\<close> are those of the \<open>k\<close>-th page
  (counted from 0).
\<close>

theorem chunk_index_sequential:
  assumes "extract_document_chunks store did chunk_size chunk_overlap = Inr chunks"
  shows "map chunk_index chunks = map int [0 ..< length chunks]
    \<and> (\<forall>c \<in> set chunks.
          chunk_id c = did @ ''-p'' @ str_int (page_number c) @ ''-c'' @ str_int (chunk_index c))
    \<and> (\<exists>pages. files store (get_pdf_path did) = Some (Pdf pages)
          \<and> (\<forall>c \<in> set chunks. 1 \<le> page_number c \<and> page_number c \<le> int (length pages))
          \<and> (\<forall>k < length pages. \<exists>j.
                filter (\<lambda>c. page_number c = int k + 1) chunks
                  = map (make_chunk did (title_of store (get_pdf_path did)) k)
                        (yielded (build_page chunk_size j (collect_page_spans (pages ! k))))))"
proof -
  from assms obtain pages where
    f: "files store (get_pdf_path did) = Some (Pdf pages)"
    and c: "chunks = pages_loop did (title_of store (get_pdf_path did)) chunk_size 0 0 pages"
    by (auto simp: extract_document_chunks_def Let_def split: option.splits pdf_file.splits)
  have "map chunk_index chunks = map int [0 ..< length chunks]"
    using pages_loop_index [of did _ chunk_size 0 0 pages] by (simp add: c)
  moreover have "\<forall>c \<in> set chunks.
      chunk_id c = did @ ''-p'' @ str_int (page_number c) @ ''-c'' @ str_int (chunk_index c)
      \<and> 1 \<le> page_number c \<and> page_number c \<le> int (length pages)"
    using pages_loop_ids [of did _ chunk_size 0 0 pages] unfolding c by fastforce
  moreover have "\<forall>k < length pages. \<exists>j.
                filter (\<lambda>c. page_number c = int k + 1) chunks
                  = map (make_chunk did (title_of store (get_pdf_path did)) k)
                        (yielded (build_page chunk_size j (collect_page_spans (pages ! k))))"
    using pages_loop_page [of _ pages 0 did _ chunk_size 0] by (simp add: c)
  ultimately show ?thesis using f by simp
qed

theorem chunk_index_sequential_witness:
  "extract_document_chunks two_page_store ''CME-9'' 10 100 = Inr two_page_chunks
   \<and> map chunk_index two_page_chunks = map int [0 ..< length two_page_chunks]
   \<and> map chunk_index two_page_chunks = [0, 1, 2, 3]
   \<and> map page_number two_page_chunks = [1, 1, 1, 2]"
proof -
  have h: "extract_document_chunks two_page_store ''CME-9'' 10 100 = Inr two_page_chunks"
    by (simp add: two_page_store_def two_page_chunks_def rule_spans_def wide_spans_def
          chunking_defs str_int_def str_nat.simps digit_char_def)
  from chunk_index_sequential [OF h] h show ?thesis
    by (simp add: two_page_chunks_def)
qed

text \<open>
  C10. \<open>chunk_overlap\<close> has no effect: whatever its value, the same document with the
  same chunk size gives the same chunks (or the same error).
\<close>

theorem chunk_overlap_ignored:
  "extract_document_chunks store did chunk_size chunk_overlap
     = extract_document_chunks store did chunk_size chunk_overlap'"
  by (simp add: extract_document_chunks_def)

section \<open>Position lookup and page dimensions\<close>

text \<open>
  Where the lookup is empty and where the dimensions raise: a missing document, a page
  number outside the document, a search that returns no rectangle.
\<close>

lemma lookup_empty_cases:
  "(files store (get_pdf_path did) = None \<longrightarrow>
       find_text_positions store did page_no search_text = Inr []
     \<and> get_page_dimensions store did page_no
         = Inl (FileNotFoundError (''Document not found: '' @ did)))
 \<and> (files store (get_pdf_path did) = Some (Pdf pages)
      \<and> (page_no < 1 \<or> int (length pages) < page_no) \<longrightarrow>
       find_text_positions store did page_no search_text = Inr []
     \<and> get_page_dimensions store did page_no
         = Inl (ValueError (''Page '' @ str_int page_no @ '' out of range'')))
 \<and> (files store (get_pdf_path did) = Some (Pdf pages)
      \<and> 1 \<le> page_no \<and> page_no \<le> int (length pages)
      \<and> search_for (pages ! nat (page_no - 1)) search_text = Some [] \<longrightarrow>
       find_text_positions store did page_no search_text = Inr [])"
  by (auto simp: find_text_positions_def get_page_dimensions_def)

text \<open>
  C8 on the code: an empty search text matches nothing on the page, but the page
  search returns \<open>None\<close> for it and the loop over the result raises \<open>TypeError\<close>. Page 1
  of document CME-101 exists (its dimensions are returned), and the lookup of the empty
  text on it is an error, not the empty list.
\<close>

theorem empty_search_text_raises:
  "get_page_dimensions rule_store ''CME-101'' 1
     = Inr \<lparr>width = 612, height = 792, dim_page_number = 1, total_pages = 1\<rparr>
   \<and> find_text_positions rule_store ''CME-101'' 1 [] = Inl TypeError"
  by (simp add: find_text_positions_def get_page_dimensions_def rule_store_def get_pdf_path_def
        mk_page_def)

section \<open>Citations\<close>

lemma citation_fields:
  assumes "citation_of_row dec row = Inr c"
  shows "relevance_score c = score_of_distance dec (row_distance row)"
    and "excerpt c = excerpt_of (row_document row)"
    and "cit_id c = row_id row"
  using assms
  by (auto simp: citation_of_row_def Let_def split: sum.splits option.splits)

lemmas citation_defs =
  search_def citation_of_row_def parse_positions_def positions_of_data_def text_position_of_def
  excerpt_of_def
  sample_decoders_def full_metadata_def Let_def

text \<open>The citations of a search that returns are those of the rows, one each, in order.\<close>

lemma assemble_rows:
  "assemble dec rows = Inr cs \<Longrightarrow>
   length cs = length rows \<and> (\<forall>i < length rows. citation_of_row dec (rows ! i) = Inr (cs ! i))"
proof (induction rows arbitrary: cs)
  case Nil
  then show ?case by simp
next
  case (Cons r rows)
  from Cons.prems obtain c cs' where
    c: "citation_of_row dec r = Inr c" and a: "assemble dec rows = Inr cs'" and e: "cs = c # cs'"
    by (auto split: sum.splits)
  from Cons.IH [OF a] have l: "length cs' = length rows"
    and n: "\<forall>i < length rows. citation_of_row dec (rows ! i) = Inr (cs' ! i)"
    by simp_all
  have "citation_of_row dec ((r # rows) ! i) = Inr (cs ! i)" if "i < length (r # rows)" for i
    using that c n e by (cases i) simp_all
  with l e show ?case by simp
qed

text \<open>
  C5. In what \<open>search\<close> returns, the excerpt of the citation of each row is the stored
  text when it has at most 300 characters, and otherwise its first 300 characters
  followed by three dots; the dots are appended exactly when the text was cut.
\<close>

theorem excerpt_truncation:
  assumes "search query_index dec query limit document_filter = Inr cs"
    and "rows = query_index query limit
           (case document_filter of None \<Rightarrow> None | Some d \<Rightarrow> if d = [] then None else Some d)"
  shows "length cs = length rows
    \<and> (\<forall>i < length rows.
          excerpt (cs ! i) = (if length (row_document (rows ! i)) \<le> 300
                              then row_document (rows ! i)
                              else take 300 (row_document (rows ! i)) @ ''...'')
        \<and> ((excerpt (cs ! i) = take 300 (row_document (rows ! i)) @ ''...'')
             = (300 < length (row_document (rows ! i)))))"
proof -
  from assms have a: "assemble dec rows = Inr cs"
    by (simp add: search_def)
  note r = assemble_rows [OF a]
  have "excerpt (cs ! i) = excerpt_of (row_document (rows ! i))" if "i < length rows" for i
    using r that citation_fields(2) by blast
  with r show ?thesis
    by (auto simp: excerpt_of_def)
qed

theorem excerpt_truncation_witness:
  "search (\<lambda>query limit where_filter. [good_row, long_row]) sample_decoders
      ''position limits'' 5 None = Inr [good_citation, long_citation]
   \<and> length [good_citation, long_citation] = length [good_row, long_row]
   \<and> excerpt ([good_citation, long_citation] ! 0) = row_document ([good_row, long_row] ! 0)
   \<and> 300 < length (row_document ([good_row, long_row] ! 1))
   \<and> excerpt ([good_citation, long_citation] ! 1)
       = take 300 (row_document ([good_row, long_row] ! 1)) @ ''...''"
proof -
  have h: "search (\<lambda>query limit where_filter. [good_row, long_row]) sample_decoders
      ''position limits'' 5 None = Inr [good_citation, long_citation]"
    by (simp add: good_row_def long_row_def good_citation_def long_citation_def citation_defs)
  have r: "[good_row, long_row] = (\<lambda>query limit where_filter. [good_row, long_row])
      ''position limits'' (5::int)
      (case None of None \<Rightarrow> None | Some d \<Rightarrow> if d = [] then None else Some d)"
    by simp
  from excerpt_truncation [OF h r] have
    all: "\<forall>i < length [good_row, long_row].
          excerpt ([good_citation, long_citation] ! i)
            = (if length (row_document ([good_row, long_row] ! i)) \<le> 300
               then row_document ([good_row, long_row] ! i)
               else take 300 (row_document ([good_row, long_row] ! i)) @ ''...'')"
    by blast
  have z: "(0::nat) < length [good_row, long_row]" and o: "(1::nat) < length [good_row, long_row]"
    by simp_all
  from all z have e0: "excerpt ([good_citation, long_citation] ! 0)
            = (if length (row_document ([good_row, long_row] ! 0)) \<le> 300
               then row_document ([good_row, long_row] ! 0)
               else take 300 (row_document ([good_row, long_row] ! 0)) @ ''...'')"
    by blast
  from all o have e1: "excerpt ([good_citation, long_citation] ! 1)
            = (if length (row_document ([good_row, long_row] ! 1)) \<le> 300
               then row_document ([good_row, long_row] ! 1)
               else take 300 (row_document ([good_row, long_row] ! 1)) @ ''...'')"
    by blast
  from h e0 e1 show ?thesis
    by (simp add: good_row_def long_row_def)
qed

section \<open>Rows the assembler cannot process\<close>

lemma assemble_error:
  "r \<in> set rows \<Longrightarrow> citation_of_row dec r = Inl e \<Longrightarrow> \<exists>e'. assemble dec rows = Inl e'"
  by (induction rows) (auto split: sum.splits)

lemma assemble_ok:
  "\<forall>r \<in> set rows. \<exists>c. citation_of_row dec r = Inr c \<Longrightarrow>
   \<exists>cs. assemble dec rows = Inr cs \<and> map cit_id cs = map row_id rows"
proof (induction rows)
  case Nil
  show ?case by simp
next
  case (Cons r rows)
  then obtain c cs where "citation_of_row dec r = Inr c" "assemble dec rows = Inr cs"
    "map cit_id cs = map row_id rows"
    by auto
  then show ?case using citation_fields(3) by simp
qed

lemma missing_field_raises:
  assumes "md_document_id (row_metadata r) = None \<or> md_document_title (row_metadata r) = None
     \<or> md_page_number (row_metadata r) = None"
  shows "\<exists>e. citation_of_row dec r = Inl e"
  using assms by (auto simp: citation_of_row_def Let_def split: sum.splits option.splits)

lemma well_formed_row:
  assumes "md_document_id (row_metadata r) \<noteq> None" "md_document_title (row_metadata r) \<noteq> None"
     "md_page_number (row_metadata r) \<noteq> None" "parse_positions dec (row_metadata r) = Inr ps"
  shows "\<exists>c. citation_of_row dec r = Inr c"
  using assms by (auto simp: citation_of_row_def Let_def split: sum.splits option.splits)

text \<open>
  C6, as the code has it. The search runs the loop \<open>assemble\<close> over the rows of the
  index. No rows give the empty list. A row that lacks \<open>document_id\<close>,
  \<open>document_title\<close> or \<open>page_number\<close> makes the whole search raise: no citation is
  returned, not even for the rows before it. When every row has the three fields and
  its positions are read or recovered, there is one citation per row, in row order.
\<close>

theorem missing_metadata_aborts:
  "search query_index dec query limit document_filter
     = assemble dec (query_index query limit
         (case document_filter of None \<Rightarrow> None | Some d \<Rightarrow> if d = [] then None else Some d))
 \<and> assemble dec [] = Inr []
 \<and> (r \<in> set rows
      \<and> (md_document_id (row_metadata r) = None \<or> md_document_title (row_metadata r) = None
          \<or> md_page_number (row_metadata r) = None)
      \<longrightarrow> (\<exists>e. assemble dec rows = Inl e))
 \<and> ((\<forall>r \<in> set rows.
        md_document_id (row_metadata r) \<noteq> None \<and> md_document_title (row_metadata r) \<noteq> None
        \<and> md_page_number (row_metadata r) \<noteq> None
        \<and> (\<exists>ps. parse_positions dec (row_metadata r) = Inr ps))
      \<longrightarrow> (\<exists>cs. assemble dec rows = Inr cs \<and> map cit_id cs = map row_id rows))"
proof -
  have "\<exists>e. assemble dec rows = Inl e"
    if "r \<in> set rows" "md_document_id (row_metadata r) = None
        \<or> md_document_title (row_metadata r) = None \<or> md_page_number (row_metadata r) = None"
    using missing_field_raises [OF that(2), of dec] assemble_error [OF that(1)] by blast
  moreover have "\<exists>cs. assemble dec rows = Inr cs \<and> map cit_id cs = map row_id rows"
    if "\<forall>r \<in> set rows.
        md_document_id (row_metadata r) \<noteq> None \<and> md_document_title (row_metadata r) \<noteq> None
        \<and> md_page_number (row_metadata r) \<noteq> None
        \<and> (\<exists>ps. parse_positions dec (row_metadata r) = Inr ps)"
    using that by (intro assemble_ok) (blast intro: well_formed_row)
  ultimately show ?thesis
    by (simp add: search_def)
qed

theorem missing_metadata_aborts_witness:
  "bad_row \<in> set [good_row, bad_row]
   \<and> md_document_id (row_metadata bad_row) = None
   \<and> (\<exists>e. assemble sample_decoders [good_row, bad_row] = Inl e)
   \<and> md_document_id (row_metadata good_row) \<noteq> None
   \<and> md_document_title (row_metadata good_row) \<noteq> None
   \<and> md_page_number (row_metadata good_row) \<noteq> None
   \<and> parse_positions sample_decoders (row_metadata good_row) = Inr []
   \<and> (\<exists>cs. assemble sample_decoders [good_row] = Inr cs \<and> map cit_id cs = map row_id [good_row])"
proof -
  have a: "md_document_id (row_metadata bad_row) = None"
    by (simp add: bad_row_def)
  have b: "md_document_id (row_metadata good_row) \<noteq> None"
    "md_document_title (row_metadata good_row) \<noteq> None"
    "md_page_number (row_metadata good_row) \<noteq> None"
    "parse_positions sample_decoders (row_metadata good_row) = Inr []"
    by (simp_all add: good_row_def citation_defs)
  from missing_metadata_aborts [of _ sample_decoders _ _ _ bad_row "[good_row, bad_row]"]
    missing_metadata_aborts [of _ sample_decoders _ _ _ good_row "[good_row]"] a b
  show ?thesis by simp
qed

text \<open>
  A well-formed row followed by one without \<open>document_id\<close>: the row is not skipped, the
  search raises \<open>KeyError\<close> and the citation of the first row is lost.
\<close>

theorem missing_metadata_not_skipped:
  "search (\<lambda>query limit where_filter. [good_row, bad_row]) sample_decoders
      ''position limits'' 5 None
   = Inl (KeyError ''document_id'')"
  by (simp add: good_row_def bad_row_def citation_defs)

text \<open>
  C7 on the code: positions that are valid JSON of the wrong shape (here a list holding
  an empty object) make \<open>TextPosition\<close> raise a validation error, which the \<open>except\<close>
  clause does not name; the search raises instead of returning the citation with no
  positions.
\<close>

theorem wrong_shape_positions_raise:
  "search (\<lambda>query limit where_filter. [shape_row]) sample_decoders ''position limits'' 5 None
   = Inl ValidationError"
  by (simp add: shape_row_def citation_defs)

end
